theory Spec2Isabelle
  imports Complex_Main "HOL-Library.AList"
begin

section \<open>Python values as they come out of \<open>json.loads\<close>\<close>

text \<open>
  \<open>chat_interface.py\<close> works on whatever \<open>json.loads\<close> returns: \<open>None\<close>, booleans,
  integers, floats, strings, lists and dictionaries with string keys. A dictionary is kept as
  an association list in insertion order; the keys of a decoded document are distinct.
  A float is a finite rational or one of the three special values \<open>json.loads\<close> accepts.
\<close>

datatype pyfloat = Finite rat | PosInf | NegInf | NaN

datatype json =
    JNull
  | JBool bool
  | JInt int
  | JFloat pyfloat
  | JStr string
  | JArr "json list"
  | JObj "(string \<times> json) list"

type_synonym dict = "(string \<times> json) list"

text \<open>
  The exceptions that can leave the client code: those it raises itself on a decoded
  document, and those the event iterator raises while it reads the body of the response
  (\<open>ChunkedEncodingError\<close> of \<open>requests\<close> when the stream breaks off, \<open>UnicodeDecodeError\<close>
  when the bytes read are not UTF-8).
\<close>

datatype error =
    JSONDecodeError
  | TypeError
  | KeyError string
  | ChunkedEncodingError
  | UnicodeDecodeError

text \<open>Truth value of a Python object, as \<open>if x:\<close> and \<open>and\<close> test it.\<close>

fun truthy :: "json \<Rightarrow> bool" where
  "truthy JNull = False"
| "truthy (JBool b) = b"
| "truthy (JInt i) = (i \<noteq> 0)"
| "truthy (JFloat f) = (f \<noteq> Finite 0)"
| "truthy (JStr s) = (s \<noteq> [])"
| "truthy (JArr xs) = (xs \<noteq> [])"
| "truthy (JObj kv) = (kv \<noteq> [])"

text \<open>\<open>k in s\<close> on two strings: \<open>k\<close> occurs in \<open>s\<close> as a contiguous substring.\<close>

fun substring :: "string \<Rightarrow> string \<Rightarrow> bool" where
  "substring k [] = (k = [])"
| "substring k (c # cs) = (take (length k) (c # cs) = k \<or> substring k cs)"

text \<open>
  \<open>k in x\<close> for a string \<open>k\<close>: key membership on a dictionary, element membership on a list,
  substring test on a string, and \<open>TypeError\<close> on \<open>None\<close>, booleans and numbers.
\<close>

fun py_in :: "string \<Rightarrow> json \<Rightarrow> error + bool" where
  "py_in k (JObj kv) = Inr (k \<in> fst ` set kv)"
| "py_in k (JArr xs) = Inr (JStr k \<in> set xs)"
| "py_in k (JStr s) = Inr (substring k s)"
| "py_in k JNull = Inl TypeError"
| "py_in k (JBool b) = Inl TypeError"
| "py_in k (JInt i) = Inl TypeError"
| "py_in k (JFloat f) = Inl TypeError"

text \<open>
  \<open>x[k]\<close> for a string \<open>k\<close>: the value on a dictionary, \<open>KeyError\<close> when the key is missing,
  and \<open>TypeError\<close> on everything else (lists and strings want integer indices).
\<close>

fun py_getitem :: "json \<Rightarrow> string \<Rightarrow> error + json" where
  "py_getitem (JObj kv) k = (case map_of kv k of None \<Rightarrow> Inl (KeyError k) | Some v \<Rightarrow> Inr v)"
| "py_getitem (JArr xs) k = Inl TypeError"
| "py_getitem (JStr s) k = Inl TypeError"
| "py_getitem JNull k = Inl TypeError"
| "py_getitem (JBool b) k = Inl TypeError"
| "py_getitem (JInt i) k = Inl TypeError"
| "py_getitem (JFloat f) k = Inl TypeError"

text \<open>
  \<open>for part in x\<close>: the elements of a list, the keys of a dictionary, the characters of a
  string (each a one-character string), and \<open>TypeError\<close> on everything else.
\<close>

fun py_iter :: "json \<Rightarrow> error + json list" where
  "py_iter (JArr xs) = Inr xs"
| "py_iter (JObj kv) = Inr (map (\<lambda>p. JStr (fst p)) kv)"
| "py_iter (JStr s) = Inr (map (\<lambda>c. JStr [c]) s)"
| "py_iter JNull = Inl TypeError"
| "py_iter (JBool b) = Inl TypeError"
| "py_iter (JInt i) = Inl TypeError"
| "py_iter (JFloat f) = Inl TypeError"

section \<open>The event loop of \<open>A2AClient._send_streaming_request\<close>\<close>

text \<open>
  One server-sent event, seen through the two things the loop does with it: the test
  \<open>not event.data\<close> and the call \<open>json.loads(event.data)\<close>.
  \<open>KeepAlive\<close> is an event whose data is empty, \<open>Undecodable\<close> one whose data
  \<open>json.loads\<close> rejects, \<open>Decoded d\<close> one whose data decodes to \<open>d\<close>.
\<close>

datatype sse_event = KeepAlive | Undecodable | Decoded json

text \<open>How one pass through the loop body ends: go on with the next event, or \<open>break\<close>.\<close>

datatype flow = Next | Break

text \<open>Lines 87 to 89: the loop over the parts of a status message.\<close>

fun parts_loop :: "dict \<Rightarrow> json list \<Rightarrow> error + dict" where
  "parts_loop final_response [] = Inr final_response"
| "parts_loop final_response (part # rest) =
    (case py_getitem part ''type'' of
       Inl e \<Rightarrow> Inl e
     | Inr t \<Rightarrow>
         if t = JStr ''text''
         then (case py_getitem part ''text'' of
                 Inl e \<Rightarrow> Inl e
               | Inr v \<Rightarrow> parts_loop (AList.update ''content'' v final_response) rest)
         else parts_loop final_response rest)"

text \<open>Lines 83 to 89: the task status update.\<close>

definition status_update :: "dict \<Rightarrow> json \<Rightarrow> error + dict" where
  "status_update final_response result =
    (case py_in ''status'' result of
       Inl e \<Rightarrow> Inl e
     | Inr False \<Rightarrow> Inr final_response
     | Inr True \<Rightarrow>
        (case py_getitem result ''status'' of
           Inl e \<Rightarrow> Inl e
         | Inr status \<Rightarrow>
            (case py_in ''message'' status of
               Inl e \<Rightarrow> Inl e
             | Inr False \<Rightarrow> Inr final_response
             | Inr True \<Rightarrow>
                (case py_getitem status ''message'' of
                   Inl e \<Rightarrow> Inl e
                 | Inr msg \<Rightarrow>
                    if truthy msg
                    then (case py_getitem msg ''parts'' of
                            Inl e \<Rightarrow> Inl e
                          | Inr message_parts \<Rightarrow>
                             (case py_iter message_parts of
                                Inl e \<Rightarrow> Inl e
                              | Inr ps \<Rightarrow> parts_loop final_response ps))
                    else Inr final_response))))"

text \<open>Line 92: the test \<open>"final" in result and result["final"]\<close>.\<close>

definition final_test :: "json \<Rightarrow> error + bool" where
  "final_test result =
    (case py_in ''final'' result of
       Inl e \<Rightarrow> Inl e
     | Inr False \<Rightarrow> Inr False
     | Inr True \<Rightarrow>
        (case py_getitem result ''final'' of
           Inl e \<Rightarrow> Inl e
         | Inr f \<Rightarrow> Inr (truthy f)))"

text \<open>Lines 97 to 100: the error branch.\<close>

definition handle_error :: "dict \<Rightarrow> json \<Rightarrow> error + flow \<times> dict" where
  "handle_error final_response data =
    (case py_in ''error'' data of
       Inl e \<Rightarrow> Inl e
     | Inr False \<Rightarrow> Inr (Next, final_response)
     | Inr True \<Rightarrow>
        (case py_getitem data ''error'' of
           Inl e \<Rightarrow> Inl e
         | Inr err \<Rightarrow>
            Inr (Break, AList.update ''error'' err
                          (AList.update ''status'' (JStr ''error'') final_response))))"

text \<open>Lines 75 to 100: the body of the loop, for one event.\<close>

fun process_event :: "dict \<Rightarrow> sse_event \<Rightarrow> error + flow \<times> dict" where
  "process_event final_response KeepAlive = Inr (Next, final_response)"
| "process_event final_response Undecodable = Inl JSONDecodeError"
| "process_event final_response (Decoded data) =
    (case py_in ''result'' data of
       Inl e \<Rightarrow> Inl e
     | Inr False \<Rightarrow> handle_error final_response data
     | Inr True \<Rightarrow>
        (case py_getitem data ''result'' of
           Inl e \<Rightarrow> Inl e
         | Inr result \<Rightarrow>
            (case status_update final_response result of
               Inl e \<Rightarrow> Inl e
             | Inr fr \<Rightarrow>
                (case final_test result of
                   Inl e \<Rightarrow> Inl e
                 | Inr True \<Rightarrow> Inr (Break, AList.update ''status'' (JStr ''complete'') fr)
                 | Inr False \<Rightarrow> handle_error fr data))))"

text \<open>
  What the client does on the network, in order: the one \<open>requests.post\<close> (with the URL and
  the JSON payload), a read of \<open>response.text\<close>, a call of \<open>response.json()\<close>, one event
  taken from \<open>client.events()\<close>, and the closing of the response or of the SSE client.
\<close>

datatype net_op = Post string json | ReadText | ReadJson | ReadEvent sse_event | Close

text \<open>
  How the iterator \<open>client.events()\<close> ends once it has yielded its events: the server has
  closed the stream and the iterator is exhausted, or the iterator itself raises.
\<close>

datatype stream_end = StreamClosed | StreamRaises error

text \<open>
  Lines 74 to 100: the loop over \<open>client.events()\<close>, on the events the iterator yields and
  the way it ends after them. The loop has no handler: an exception of the body or of the
  iterator leaves it. It returns the dictionary (or the exception that left the loop) and
  the events it took from the stream. The list is finite: a stream that the server never
  closes and that brings no terminal event keeps the loop waiting, and is not covered here.
\<close>

fun events_loop ::
  "stream_end \<Rightarrow> dict \<Rightarrow> sse_event list \<Rightarrow> (error + dict) \<times> net_op list" where
  "events_loop StreamClosed final_response [] = (Inr final_response, [])"
| "events_loop (StreamRaises e) final_response [] = (Inl e, [])"
| "events_loop ending final_response (event # rest) =
    (case process_event final_response event of
       Inl e \<Rightarrow> (Inl e, [ReadEvent event])
     | Inr (Break, fr) \<Rightarrow> (Inr fr, [ReadEvent event])
     | Inr (Next, fr) \<Rightarrow>
         (case events_loop ending fr rest of (r, ops) \<Rightarrow> (r, ReadEvent event # ops)))"

section \<open>The two requests of \<open>A2AClient\<close>\<close>

text \<open>The client object: the server URL and the session id fixed at construction.\<close>

record a2a_client =
  server_url :: string
  session_id :: string

text \<open>
  The answer of the server to the one \<open>requests.post\<close>, seen through what the client reads
  of it: \<open>status_code\<close>, \<open>response.text\<close>, the value of \<open>response.json()\<close> (\<open>None\<close> when
  the body is not a JSON document and the call raises), the events that
  \<open>sseclient.SSEClient(response).events()\<close> yields, and the way that iterator ends.
\<close>

record http_response =
  status_code :: int
  response_text :: string
  response_json :: "json option"
  response_events :: "sse_event list"
  response_end :: stream_end

text \<open>Lines 26 to 39 and 49 to 62: the JSON-RPC payload, for the given method.\<close>

definition payload :: "string \<Rightarrow> a2a_client \<Rightarrow> string \<Rightarrow> string \<Rightarrow> json" where
  "payload method c task_id message =
    JObj [(''jsonrpc'', JStr ''2.0''),
          (''id'', JStr task_id),
          (''method'', JStr method),
          (''params'', JObj [(''id'', JStr task_id),
                             (''sessionId'', JStr (session_id c)),
                             (''message'', JObj [(''role'', JStr ''user''),
                                                 (''parts'', JArr [JObj [(''type'', JStr ''text''),
                                                                         (''text'', JStr message)]])]),
                             (''acceptedOutputModes'', JArr [JStr ''text''])])]"

text \<open>Python's \<open>str\<close> of an integer, as the f-string of lines 43 and 68 formats the status code.\<close>

function str_nat :: "nat \<Rightarrow> string" where
  "str_nat n =
    (if n < 10 then [''0123456789'' ! n]
     else str_nat (n div 10) @ [''0123456789'' ! (n mod 10)])"
  by pat_completeness auto
termination
  by (relation "measure id") auto

definition str_int :: "int \<Rightarrow> string" where
  "str_int i = (if i < 0 then ''-'' @ str_nat (nat (- i)) else str_nat (nat i))"

text \<open>Lines 43 and 68: the dictionary returned when the status code is not 200.\<close>

definition http_error :: "http_response \<Rightarrow> json" where
  "http_error response =
    JObj [(''error'', JStr (''Error: '' @ str_int (status_code response) @ '' - ''
                             @ response_text response))]"

text \<open>Line 73: the dictionary the event loop starts from.\<close>

definition initial_response :: dict where
  "initial_response = [(''status'', JStr ''incomplete''), (''content'', JStr [])]"

text \<open>
  Lines 24 to 45: \<open>_send_request\<close>. The result is the returned value or the exception raised,
  with the network operations performed.
\<close>

definition send_request ::
  "a2a_client \<Rightarrow> string \<Rightarrow> string \<Rightarrow> http_response \<Rightarrow> (error + json) \<times> net_op list" where
  "send_request c task_id message response =
    (let post = Post (server_url c) (payload ''tasks/send'' c task_id message) in
     if status_code response \<noteq> 200 then (Inr (http_error response), [post, ReadText])
     else (case response_json response of
             None \<Rightarrow> (Inl JSONDecodeError, [post, ReadJson])
           | Some doc \<Rightarrow> (Inr doc, [post, ReadJson])))"

text \<open>Lines 47 to 102: \<open>_send_streaming_request\<close>.\<close>

definition send_streaming_request ::
  "a2a_client \<Rightarrow> string \<Rightarrow> string \<Rightarrow> http_response \<Rightarrow> (error + json) \<times> net_op list" where
  "send_streaming_request c task_id message response =
    (let post = Post (server_url c) (payload ''tasks/sendSubscribe'' c task_id message) in
     if status_code response \<noteq> 200 then (Inr (http_error response), [post, ReadText])
     else (case events_loop (response_end response) initial_response
                   (response_events response) of
             (Inl e, ops) \<Rightarrow> (Inl e, post # ops)
           | (Inr final_response, ops) \<Rightarrow> (Inr (JObj final_response), post # ops)))"

text \<open>
  Lines 15 to 22: \<open>send_message\<close>; the fresh \<open>uuid4\<close> task id is a parameter.
\<close>

definition send_message ::
  "a2a_client \<Rightarrow> string \<Rightarrow> string \<Rightarrow> bool \<Rightarrow> http_response \<Rightarrow> (error + json) \<times> net_op list" where
  "send_message c task_id message stream response =
    (if stream then send_streaming_request c task_id message response
     else send_request c task_id message response)"

section \<open>The chat shell of \<open>main\<close>\<close>

text \<open>
  What the placeholder of the assistant's chat bubble shows: the text \<open>Thinking...\<close>, an error
  box \<open>Error: v\<close> for a value \<open>v\<close> formatted by the f-string of line 140, an error box for a
  caught exception (line 146), or the written content (line 142).
\<close>

datatype placeholder = Thinking | ErrorBox json | ErrorException error | Written json

record chat_message =
  role :: string
  content :: json

record shell =
  messages :: "chat_message list"
  message_placeholder :: placeholder

text \<open>Lines 139 to 146: what the shell does with the value or exception of \<open>send_message\<close>.\<close>

definition show_response :: "error + json \<Rightarrow> shell \<Rightarrow> shell" where
  "show_response outcome sh =
    (case outcome of
       Inl e \<Rightarrow> sh\<lparr>message_placeholder := ErrorException e\<rparr>
     | Inr response \<Rightarrow>
        (case py_in ''error'' response of
           Inl e \<Rightarrow> sh\<lparr>message_placeholder := ErrorException e\<rparr>
         | Inr True \<Rightarrow>
            (case py_getitem response ''error'' of
               Inl e \<Rightarrow> sh\<lparr>message_placeholder := ErrorException e\<rparr>
             | Inr v \<Rightarrow> sh\<lparr>message_placeholder := ErrorBox v\<rparr>)
         | Inr False \<Rightarrow>
            (case py_getitem response ''content'' of
               Inl e \<Rightarrow> sh\<lparr>message_placeholder := ErrorException e\<rparr>
             | Inr v \<Rightarrow>
                sh\<lparr>message_placeholder := Written v,
                   messages := messages sh @ [\<lparr>role = ''assistant'', content = v\<rparr>]\<rparr>)))"

text \<open>Lines 123 to 146: one turn of the chat, for a prompt the user entered.\<close>

definition chat_turn ::
  "a2a_client \<Rightarrow> string \<Rightarrow> string \<Rightarrow> http_response \<Rightarrow> shell \<Rightarrow> shell" where
  "chat_turn c task_id prompt response sh =
    show_response (fst (send_message c task_id prompt True response))
      (sh\<lparr>messages := messages sh @ [\<lparr>role = ''user'', content = JStr prompt\<rparr>],
          message_placeholder := Thinking\<rparr>)"

section \<open>Notions used to state the properties\<close>

text \<open>The value a dictionary holds under \<open>status\<close>.\<close>

definition status_of :: "dict \<Rightarrow> json option" where
  "status_of d = map_of d ''status''"

text \<open>
  The shape of a streamed event: the payload is an object; its \<open>result\<close>, when present, is an
  object; the \<open>status\<close> of the result, when present, is an object; the \<open>message\<close> of the
  status, when present, is empty (\<open>null\<close>, an empty object, anything false) or an object whose
  \<open>parts\<close> is a list of objects that each have a \<open>type\<close>, and a \<open>text\<close> when the type is
  \<open>"text"\<close>. An event without data has the shape too; one with undecodable data does not.
\<close>

fun wf_part :: "json \<Rightarrow> bool" where
  "wf_part (JObj kv) =
    (case map_of kv ''type'' of
       None \<Rightarrow> False
     | Some t \<Rightarrow> t \<noteq> JStr ''text'' \<or> map_of kv ''text'' \<noteq> None)"
| "wf_part _ = False"

fun wf_message :: "json \<Rightarrow> bool" where
  "wf_message (JObj kv) =
    (kv = [] \<or>
     (case map_of kv ''parts'' of Some (JArr ps) \<Rightarrow> list_all wf_part ps | _ \<Rightarrow> False))"
| "wf_message m = (\<not> truthy m)"

fun wf_status :: "json \<Rightarrow> bool" where
  "wf_status (JObj kv) = (case map_of kv ''message'' of None \<Rightarrow> True | Some m \<Rightarrow> wf_message m)"
| "wf_status _ = False"

fun wf_result :: "json \<Rightarrow> bool" where
  "wf_result (JObj kv) = (case map_of kv ''status'' of None \<Rightarrow> True | Some s \<Rightarrow> wf_status s)"
| "wf_result _ = False"

fun wf_event :: "sse_event \<Rightarrow> bool" where
  "wf_event KeepAlive = True"
| "wf_event Undecodable = False"
| "wf_event (Decoded (JObj kv)) =
    (case map_of kv ''result'' of None \<Rightarrow> True | Some r \<Rightarrow> wf_result r)"
| "wf_event (Decoded _) = False"

text \<open>The payload under the \<open>error\<close> field of an event, when the event carries one.\<close>

fun error_field :: "sse_event \<Rightarrow> json option" where
  "error_field (Decoded (JObj kv)) = map_of kv ''error''"
| "error_field _ = None"

text \<open>The event has a \<open>result\<close> whose \<open>final\<close> is true.\<close>

fun final_event :: "sse_event \<Rightarrow> bool" where
  "final_event (Decoded (JObj kv)) =
    (case map_of kv ''result'' of
       Some (JObj r) \<Rightarrow> (case map_of r ''final'' of Some f \<Rightarrow> truthy f | None \<Rightarrow> False)
     | _ \<Rightarrow> False)"
| "final_event _ = False"

text \<open>
  The texts of the parts of type \<open>"text"\<close> under \<open>result.status.message.parts\<close> of an event,
  in order.
\<close>

fun part_texts :: "json list \<Rightarrow> json list" where
  "part_texts [] = []"
| "part_texts (JObj kv # ps) =
    (if map_of kv ''type'' = Some (JStr ''text'')
     then (case map_of kv ''text'' of Some v \<Rightarrow> v # part_texts ps | None \<Rightarrow> part_texts ps)
     else part_texts ps)"
| "part_texts (_ # ps) = part_texts ps"

fun message_texts :: "json \<Rightarrow> json list" where
  "message_texts (JObj kv) =
    (case map_of kv ''parts'' of Some (JArr ps) \<Rightarrow> part_texts ps | _ \<Rightarrow> [])"
| "message_texts _ = []"

fun status_texts :: "json \<Rightarrow> json list" where
  "status_texts (JObj kv) = (case map_of kv ''message'' of Some m \<Rightarrow> message_texts m | None \<Rightarrow> [])"
| "status_texts _ = []"

fun result_texts :: "json \<Rightarrow> json list" where
  "result_texts (JObj kv) = (case map_of kv ''status'' of Some s \<Rightarrow> status_texts s | None \<Rightarrow> [])"
| "result_texts _ = []"

fun event_texts :: "sse_event \<Rightarrow> json list" where
  "event_texts (Decoded (JObj kv)) =
    (case map_of kv ''result'' of Some r \<Rightarrow> result_texts r | None \<Rightarrow> [])"
| "event_texts _ = []"

text \<open>The dictionary after the listed texts have been assigned to \<open>content\<close>, one after the other.\<close>

definition assign_content :: "dict \<Rightarrow> json list \<Rightarrow> dict" where
  "assign_content d ts = (if ts = [] then d else AList.update ''content'' (last ts) d)"

text \<open>
  A sequence of events with keep-alive events inserted: \<open>ns\<close> gives, for each event in turn,
  how many are put in front of it, and then how many follow the last event.
\<close>

fun pad :: "nat list \<Rightarrow> sse_event list \<Rightarrow> sse_event list" where
  "pad [] events = events"
| "pad (n # ns) [] = replicate n KeepAlive @ pad ns []"
| "pad (n # ns) (e # events) = replicate n KeepAlive @ e # pad ns events"

section \<open>Sample inputs\<close>

text \<open>A part of type \<open>"text"\<close>, and a result whose status message has the given parts.\<close>

definition text_part :: "string \<Rightarrow> json" where
  "text_part s = JObj [(''type'', JStr ''text''), (''text'', JStr s)]"

definition status_result :: "json list \<Rightarrow> (string \<times> json) list \<Rightarrow> json" where
  "status_result parts extra =
     JObj ((''status'', JObj [(''message'', JObj [(''parts'', JArr parts)])]) # extra)"

text \<open>The two events of the specification's first scenario, and the event of its second.\<close>

definition ev_partial :: sse_event where
  "ev_partial = Decoded (JObj [(''result'', status_result [text_part ''partial''] [])])"

definition ev_select :: sse_event where
  "ev_select =
     Decoded (JObj [(''result'',
       status_result [text_part ''SELECT 1''] [(''final'', JBool True)])])"

definition boom :: json where
  "boom = JObj [(''code'', JInt 500), (''message'', JStr ''boom'')]"

definition ev_boom :: sse_event where
  "ev_boom = Decoded (JObj [(''error'', boom)])"

text \<open>An event whose status message has a \<open>role\<close> and no \<open>parts\<close>.\<close>

definition ev_no_parts :: sse_event where
  "ev_no_parts =
     Decoded (JObj [(''result'',
       JObj [(''status'', JObj [(''message'', JObj [(''role'', JStr ''agent'')])])])])"

text \<open>A final event with the text \<open>draft\<close>, and an event with two text parts.\<close>

definition ev_draft :: sse_event where
  "ev_draft =
     Decoded (JObj [(''result'', status_result [text_part ''draft''] [(''final'', JBool True)])])"

definition ev_two_parts :: sse_event where
  "ev_two_parts =
     Decoded (JObj [(''result'', status_result [text_part ''one'', text_part ''two''] [])])"

text \<open>Events that carry both a \<open>result\<close> and an \<open>error\<close>.\<close>

definition ev_result_error :: sse_event where
  "ev_result_error =
     Decoded (JObj [(''result'', status_result [text_part ''x''] []), (''error'', boom)])"

definition ev_final_error :: sse_event where
  "ev_final_error =
     Decoded (JObj [(''result'', status_result [text_part ''x''] [(''final'', JBool True)]),
                    (''error'', boom)])"

definition ev_done_error :: sse_event where
  "ev_done_error =
     Decoded (JObj [(''result'', JObj [(''final'', JBool True)]), (''error'', boom)])"

text \<open>A client, a response with status 200 that streams the given events, and a response
  with status 200 whose body is a JSON-RPC success envelope.\<close>

definition demo_client :: a2a_client where
  "demo_client = \<lparr>server_url = ''http://localhost:10002/'', session_id = ''s1''\<rparr>"

definition ok_stream :: "sse_event list \<Rightarrow> http_response" where
  "ok_stream events =
     \<lparr>status_code = 200, response_text = [], response_json = None, response_events = events,
      response_end = StreamClosed\<rparr>"

text \<open>The same with a stream that breaks off after the given events.\<close>

definition dropped_stream :: "sse_event list \<Rightarrow> http_response" where
  "dropped_stream events =
     \<lparr>status_code = 200, response_text = [], response_json = None, response_events = events,
      response_end = StreamRaises ChunkedEncodingError\<rparr>"

definition envelope :: json where
  "envelope =
     JObj [(''jsonrpc'', JStr ''2.0''), (''id'', JStr ''t1''),
           (''result'', status_result [text_part ''SELECT 1''] [])]"

definition envelope_response :: http_response where
  "envelope_response =
     \<lparr>status_code = 200, response_text = [], response_json = Some envelope,
      response_events = [], response_end = StreamClosed\<rparr>"

text \<open>
  The shape the specification gives a reduced outcome: an object with a \<open>status\<close> that is
  \<open>incomplete\<close>, \<open>complete\<close> or \<open>error\<close>, a \<open>content\<close> that is a string, and no field
  other than these two and \<open>error\<close>.
\<close>

fun reduced_outcome :: "json \<Rightarrow> bool" where
  "reduced_outcome (JObj kv) =
    (map_of kv ''status'' \<in>
        {Some (JStr ''incomplete''), Some (JStr ''complete''), Some (JStr ''error'')}
     \<and> (case map_of kv ''content'' of Some (JStr s) \<Rightarrow> True | _ \<Rightarrow> False)
     \<and> fst ` set kv \<subseteq> {''status'', ''content'', ''error''})"
| "reduced_outcome _ = False"

section \<open>The loop body on well-formed events\<close>

lemma parts_loop_wf:
  "list_all wf_part ps \<Longrightarrow> parts_loop d ps = Inr (assign_content d (part_texts ps))"
proof (induction ps arbitrary: d)
  case Nil
  then show ?case by (simp add: assign_content_def)
next
  case (Cons p ps)
  from Cons.prems obtain kv where p: "p = JObj kv" and wp: "wf_part (JObj kv)" and rest: "list_all wf_part ps"
    by (cases p) auto
  from wp obtain t where t: "map_of kv ''type'' = Some t" by (auto split: option.splits)
  show ?case
  proof (cases "t = JStr ''text''")
    case True
    with wp t obtain v where v: "map_of kv ''text'' = Some v" by auto
    show ?thesis using p t True v Cons.IH [OF rest]
      by (simp add: assign_content_def)
  next
    case False
    then show ?thesis using p t Cons.IH [OF rest] by simp
  qed
qed

lemma assign_content_append:
  "assign_content (assign_content d xs) ys = assign_content d (xs @ ys)"
  by (simp add: assign_content_def)

lemma in_keys_map_of: "(k \<in> fst ` set kv) = (map_of kv k \<noteq> None)"
  by (simp add: map_of_eq_None_iff)

lemma message_update_wf:
  "wf_message m \<Longrightarrow> truthy m \<Longrightarrow>
    (case py_getitem m ''parts'' of
       Inl e \<Rightarrow> Inl e
     | Inr message_parts \<Rightarrow>
        (case py_iter message_parts of Inl e \<Rightarrow> Inl e | Inr ps \<Rightarrow> parts_loop d ps))
    = Inr (assign_content d (message_texts m))"
  by (cases m) (auto simp: parts_loop_wf split: option.splits json.splits)

lemma message_texts_falsy: "wf_message m \<Longrightarrow> \<not> truthy m \<Longrightarrow> message_texts m = []"
  by (cases m) auto

lemma status_update_wf:
  "wf_result r \<Longrightarrow> status_update d r = Inr (assign_content d (result_texts r))"
proof -
  assume wf: "wf_result r"
  then obtain kv where r: "r = JObj kv" by (cases r) auto
  show ?thesis
  proof (cases "map_of kv ''status''")
    case None
    then show ?thesis using r
      by (simp add: status_update_def in_keys_map_of assign_content_def)
  next
    case (Some s)
    with wf r obtain st where s: "s = JObj st" and ws: "wf_status (JObj st)" by (cases s) auto
    show ?thesis
    proof (cases "map_of st ''message''")
      case None
      then show ?thesis using r Some s
        by (simp add: status_update_def in_keys_map_of assign_content_def)
    next
      case (Some m)
      with ws have wm: "wf_message m" by simp
      show ?thesis
      proof (cases "truthy m")
        case True
        then show ?thesis
          using r \<open>map_of kv ''status'' = Some s\<close> s Some message_update_wf [OF wm True, of d]
          by (simp add: status_update_def in_keys_map_of)
      next
        case False
        then show ?thesis
          using r \<open>map_of kv ''status'' = Some s\<close> s Some message_texts_falsy [OF wm False]
          by (simp add: status_update_def in_keys_map_of assign_content_def)
      qed
    qed
  qed
qed

lemma final_test_wf:
  "wf_event (Decoded (JObj kv)) \<Longrightarrow> map_of kv ''result'' = Some r \<Longrightarrow>
     final_test r = Inr (final_event (Decoded (JObj kv)))"
  by (cases r) (auto simp: final_test_def in_keys_map_of split: option.splits)

lemma handle_error_obj:
  "handle_error d (JObj kv) =
    (case map_of kv ''error'' of
       None \<Rightarrow> Inr (Next, d)
     | Some err \<Rightarrow>
         Inr (Break, AList.update ''error'' err (AList.update ''status'' (JStr ''error'') d)))"
  by (auto simp: handle_error_def in_keys_map_of split: option.splits)

lemma process_event_wf:
  "wf_event e \<Longrightarrow>
    process_event d e =
      (if final_event e
       then Inr (Break, AList.update ''status'' (JStr ''complete'') (assign_content d (event_texts e)))
       else (case error_field e of
               None \<Rightarrow> Inr (Next, assign_content d (event_texts e))
             | Some err \<Rightarrow>
                 Inr (Break, AList.update ''error'' err
                    (AList.update ''status'' (JStr ''error'') (assign_content d (event_texts e))))))"
proof (cases e)
  case KeepAlive
  then show ?thesis by (simp add: assign_content_def)
next
  case Undecodable
  assume "wf_event e"
  with Undecodable show ?thesis by simp
next
  case (Decoded data)
  assume wf: "wf_event e"
  with Decoded obtain kv where data: "data = JObj kv" by (cases data) auto
  show ?thesis
  proof (cases "map_of kv ''result''")
    case None
    then show ?thesis using Decoded data
      by (simp add: in_keys_map_of handle_error_obj assign_content_def split: option.splits)
  next
    case (Some r)
    with wf Decoded data have wr: "wf_result r" by simp
    have ft: "final_test r = Inr (final_event e)"
      using final_test_wf [of kv r] wf Decoded data Some by simp
    have et: "event_texts e = result_texts r" using Decoded data Some by simp
    have ef: "error_field e = map_of kv ''error''" using Decoded data by simp
    show ?thesis
      unfolding Decoded data
      using Some status_update_wf [OF wr, of d] ft et ef
      unfolding Decoded data
      by (simp add: in_keys_map_of handle_error_obj split: option.splits)
  qed
qed


lemma events_loop_quiet:
  "\<forall>e\<in>set pre. wf_event e \<and> \<not> final_event e \<and> error_field e = None \<Longrightarrow>
     events_loop en d (pre @ rest) =
       (case events_loop en (assign_content d (concat (map event_texts pre))) rest of
          (r, ops) \<Rightarrow> (r, map ReadEvent pre @ ops))"
proof (induction pre arbitrary: d)
  case Nil
  then show ?case by (simp add: assign_content_def)
next
  case (Cons e pre)
  then have step: "process_event d e = Inr (Next, assign_content d (event_texts e))"
    by (simp add: process_event_wf)
  from Cons.prems have rest: "\<forall>e\<in>set pre. wf_event e \<and> \<not> final_event e \<and> error_field e = None"
    by simp
  show ?case
    using step Cons.IH [OF rest, of "assign_content d (event_texts e)"]
    by (simp add: assign_content_append split: prod.splits)
qed

lemma status_of_assign_content [simp]: "status_of (assign_content d ts) = status_of d"
  by (simp add: status_of_def assign_content_def update_conv')

lemma parts_loop_status: "parts_loop d ps = Inr d' \<Longrightarrow> status_of d' = status_of d"
proof (induction ps arbitrary: d)
  case Nil
  then show ?case by simp
next
  case (Cons p ps)
  then show ?case
    by (auto simp: status_of_def update_conv' split: sum.splits if_splits)
qed

lemma status_update_status: "status_update d r = Inr d' \<Longrightarrow> status_of d' = status_of d"
  by (auto simp: status_update_def dest: parts_loop_status split: sum.splits bool.splits if_splits)

lemma handle_error_status:
  "handle_error d data = Inr (fl, d') \<Longrightarrow>
     (fl = Next \<and> d' = d) \<or> (fl = Break \<and> status_of d' = Some (JStr ''error''))"
  by (auto simp: handle_error_def status_of_def update_conv' split: sum.splits bool.splits)

lemma process_event_status:
  "process_event d e = Inr (fl, d') \<Longrightarrow>
     (fl = Next \<and> status_of d' = status_of d) \<or>
     (fl = Break \<and> (status_of d' = Some (JStr ''complete'') \<or> status_of d' = Some (JStr ''error'')))"
proof (cases e)
  case KeepAlive
  assume "process_event d e = Inr (fl, d')"
  with KeepAlive show ?thesis by simp
next
  case Undecodable
  assume "process_event d e = Inr (fl, d')"
  with Undecodable show ?thesis by simp
next
  case (Decoded data)
  assume run: "process_event d e = Inr (fl, d')"
  show ?thesis using run unfolding Decoded
    by (auto simp: status_of_def update_conv' dest!: handle_error_status status_update_status
        split: sum.splits bool.splits)
qed

lemma events_loop_status:
  "events_loop en d evs = (Inr d', ops) \<Longrightarrow>
     status_of d' = status_of d \<or> status_of d' = Some (JStr ''complete'')
       \<or> status_of d' = Some (JStr ''error'')"
proof (induction evs arbitrary: d ops)
  case Nil
  then show ?case by (cases en) simp_all
next
  case (Cons e evs)
  show ?case
  proof (cases "process_event d e")
    case (Inl err)
    with Cons.prems show ?thesis by simp
  next
    case (Inr p)
    obtain fl d1 where p: "p = (fl, d1)" by (cases p)
    show ?thesis
    proof (cases fl)
      case Next
      with Inr p Cons.prems obtain ops1 where run: "events_loop en d1 evs = (Inr d', ops1)"
        by (auto split: prod.splits)
      from process_event_status [of d e fl d1] Inr p Next have "status_of d1 = status_of d" by simp
      with Cons.IH [OF run] show ?thesis by simp
    next
      case Break
      with Inr p Cons.prems have "d' = d1" by simp
      with process_event_status [of d e fl d1] Inr p Break show ?thesis by simp
    qed
  qed
qed

lemma events_loop_terminal_stops:
  "events_loop en d evs = (Inr d', ops) \<Longrightarrow> status_of d' \<noteq> status_of d \<Longrightarrow>
     events_loop en' d (evs @ later) = (Inr d', ops)"
proof (induction evs arbitrary: d ops)
  case Nil
  then show ?case by (cases en) simp_all
next
  case (Cons e evs)
  show ?case
  proof (cases "process_event d e")
    case (Inl err)
    with Cons.prems show ?thesis by simp
  next
    case (Inr p)
    obtain fl d1 where p: "p = (fl, d1)" by (cases p)
    show ?thesis
    proof (cases fl)
      case Next
      with Inr p Cons.prems obtain ops1 where run: "events_loop en d1 evs = (Inr d', ops1)"
        and ops: "ops = ReadEvent e # ops1"
        by (auto split: prod.splits)
      from process_event_status [of d e fl d1] Inr p Next have "status_of d1 = status_of d" by simp
      with Cons.prems have "status_of d' \<noteq> status_of d1" by simp
      from Cons.IH [OF run this] show ?thesis using Inr p Next ops by simp
    next
      case Break
      with Inr p Cons.prems show ?thesis by simp
    qed
  qed
qed

lemma fst_events_loop_Cons:
  "fst (events_loop en d (e # es)) =
    (case process_event d e of
       Inl err \<Rightarrow> Inl err
     | Inr (Break, d1) \<Rightarrow> Inr d1
     | Inr (Next, d1) \<Rightarrow> fst (events_loop en d1 es))"
  by (simp split: sum.splits flow.splits prod.splits)

lemma snd_events_loop_Cons:
  "snd (events_loop en d (e # es)) =
    ReadEvent e # (case process_event d e of
                     Inr (Next, d1) \<Rightarrow> snd (events_loop en d1 es)
                   | _ \<Rightarrow> [])"
  by (simp split: sum.splits flow.splits prod.splits)

lemma events_loop_keepalives:
  "fst (events_loop en d (replicate n KeepAlive @ evs)) = fst (events_loop en d evs)"
  by (induction n) (auto split: prod.splits)

lemma events_loop_pad: "fst (events_loop en d (pad ns evs)) = fst (events_loop en d evs)"
proof (induction ns evs arbitrary: d rule: pad.induct)
  case (1 events)
  then show ?case by simp
next
  case (2 n ns)
  then show ?case using events_loop_keepalives [of en d n "pad ns []"] by simp
next
  case (3 n ns e events)
  have "fst (events_loop en d (pad (n # ns) (e # events))) = fst (events_loop en d (e # pad ns events))"
    using events_loop_keepalives [of en d n "e # pad ns events"] by simp
  also have "\<dots> = fst (events_loop en d (e # events))"
    using 3 by (simp only: fst_events_loop_Cons)
  finally show ?case .
qed

lemma events_loop_no_close: "Close \<notin> set (snd (events_loop en d evs))"
proof (induction evs arbitrary: d)
  case Nil
  then show ?case by (cases en) simp_all
next
  case (Cons e evs)
  then show ?case
    by (simp only: snd_events_loop_Cons) (simp split: sum.splits flow.splits prod.splits)
qed

lemma assign_initial:
  "assign_content initial_response ts =
     [(''status'', JStr ''incomplete''), (''content'', last (JStr [] # ts))]"
  by (simp add: assign_content_def initial_response_def)

lemmas sample_defs =
  text_part_def status_result_def ev_partial_def ev_select_def boom_def ev_boom_def
  ev_draft_def ev_two_parts_def ev_result_error_def ev_final_error_def ev_done_error_def
  demo_client_def ok_stream_def envelope_def envelope_response_def
  ev_no_parts_def dropped_stream_def

lemmas run_defs =
  status_update_def final_test_def handle_error_def initial_response_def
  send_streaming_request_def send_request_def send_message_def http_error_def

section \<open>The reducer on an event with an error field\<close>

text \<open>
  C1, as the code has it. The loop body looks at the \<open>result\<close> of an event before it looks at
  its \<open>error\<close>. On a well-formed event that carries an \<open>error\<close> field the body always ends the
  loop, and the text parts of the event's result are assigned to \<open>content\<close> first. When
  \<open>result.final\<close> is true the status becomes \<open>complete\<close> and the \<open>error\<close> field is never
  read; otherwise the status becomes \<open>error\<close> and the error payload is attached.
\<close>

theorem error_event_processed_after_result:
  assumes "wf_event e" and "error_field e = Some err"
  shows "process_event d e =
    Inr (Break,
      if final_event e
      then AList.update ''status'' (JStr ''complete'') (assign_content d (event_texts e))
      else AList.update ''error'' err
             (AList.update ''status'' (JStr ''error'') (assign_content d (event_texts e))))"
  using assms by (simp add: process_event_wf)

text \<open>An event with a text part, no \<open>final\<close> and an \<open>error\<close>: the text still reaches \<open>content\<close>.\<close>

theorem error_event_processed_after_result_witness:
  "wf_event ev_result_error \<and> error_field ev_result_error = Some boom \<and>
   process_event initial_response ev_result_error =
     Inr (Break, [(''status'', JStr ''error''), (''content'', JStr ''x''), (''error'', boom)])"
proof -
  have wf: "wf_event ev_result_error" by (simp add: sample_defs)
  have ef: "error_field ev_result_error = Some boom" by (simp add: sample_defs)
  have nf: "\<not> final_event ev_result_error" by (simp add: sample_defs)
  have tx: "event_texts ev_result_error = [JStr ''x'']" by (simp add: sample_defs)
  show ?thesis
    using wf ef nf tx error_event_processed_after_result [OF wf ef, of initial_response]
    by (simp add: assign_initial)
qed

text \<open>
  C1 as stated fails: on an event that carries an \<open>error\<close> field and a result with a text part
  and \<open>final\<close> true, the status is \<open>complete\<close>, the text is in \<open>content\<close> and no error is
  attached.
\<close>

theorem error_priority_counterexample:
  "error_field ev_final_error = Some boom \<and>
   process_event initial_response ev_final_error =
     Inr (Break, [(''status'', JStr ''complete''), (''content'', JStr ''x'')])"
  by (simp add: sample_defs run_defs)

section \<open>The non-streaming request\<close>

text \<open>
  C2, as the code has it. On the non-streaming path, when the HTTP status is 200 the client
  returns the decoded JSON body of the response unchanged, whatever its shape, and raises
  when the body does not decode; it does not reduce the document.
\<close>

theorem send_request_returns_body:
  assumes "status_code response = 200"
  shows "fst (send_message c task_id message False response) =
    (case response_json response of None \<Rightarrow> Inl JSONDecodeError | Some doc \<Rightarrow> Inr doc)"
  using assms by (simp add: send_message_def send_request_def split: option.splits)

theorem send_request_returns_body_witness:
  "status_code envelope_response = 200 \<and>
   fst (send_message demo_client ''t1'' ''top salaries'' False envelope_response) = Inr envelope"
proof -
  have ok: "status_code envelope_response = 200" by (simp add: envelope_response_def)
  have doc: "response_json envelope_response = Some envelope" by (simp add: envelope_response_def)
  show ?thesis
    using ok doc send_request_returns_body [OF ok, of demo_client "''t1''" "''top salaries''"]
    by simp
qed

text \<open>
  C2 as stated fails: for a response with status 200 whose body is a JSON-RPC success
  envelope, the value returned is that envelope, which has no \<open>status\<close> and no \<open>content\<close>.
\<close>

theorem send_request_shape_counterexample:
  "status_code envelope_response = 200 \<and>
   fst (send_message demo_client ''t1'' ''top salaries'' False envelope_response) = Inr envelope \<and>
   \<not> reduced_outcome envelope"
  by (simp add: sample_defs run_defs)

section \<open>The connection\<close>

text \<open>
  C3, as the code has it. On the streaming path the client never closes the connection: on
  every exit path (a terminal status, the end of the stream, an exception, a status code
  other than 200) the operations it has performed on the network are the post and reads, and
  no close.
\<close>

theorem streaming_request_never_closes:
  "Close \<notin> set (snd (send_streaming_request c task_id message response))"
proof (cases "events_loop (response_end response) initial_response (response_events response)")
  case (Pair r ops)
  have "Close \<notin> set ops"
    using events_loop_no_close [of "response_end response" initial_response "response_events response"] Pair by simp
  then show ?thesis
    using Pair by (cases r) (simp_all add: send_streaming_request_def Let_def)
qed

text \<open>
  C3 as stated fails: on the stream of the first scenario the loop ends on the terminal
  status \<open>complete\<close>, and the client has posted the request and read the two events, without
  a close.
\<close>

theorem connection_closed_counterexample:
  "send_streaming_request demo_client ''t1'' ''q'' (ok_stream [ev_partial, ev_select]) =
    (Inr (JObj [(''status'', JStr ''complete''), (''content'', JStr ''SELECT 1'')]),
     [Post ''http://localhost:10002/'' (payload ''tasks/sendSubscribe'' demo_client ''t1'' ''q''),
      ReadEvent ev_partial, ReadEvent ev_select])"
  by (simp add: sample_defs run_defs)

section \<open>Reduction of a stream of well-formed events\<close>

text \<open>
  C4, as the code has it. For every sequence of well-formed events whose last event has
  \<open>result.final\<close> true, in which no earlier event has \<open>result.final\<close> true and no event
  carries an \<open>error\<close> field, the request returns status \<open>complete\<close> and a \<open>content\<close> equal to
  the last text part of the whole sequence (the initial empty string when there is none);
  so of several text parts in one event only the last is retained.
\<close>

theorem final_event_completes_with_last_text:
  assumes "status_code response = 200"
    and "response_events response = pre @ [lst]"
    and "\<forall>e\<in>set pre. wf_event e \<and> \<not> final_event e \<and> error_field e = None"
    and "wf_event lst" and "final_event lst" and "error_field lst = None"
  shows "fst (send_streaming_request c task_id message response) =
    Inr (JObj [(''status'', JStr ''complete''),
               (''content'', last (JStr [] # concat (map event_texts (pre @ [lst]))))])"
proof -
  have step: "process_event (assign_content initial_response (concat (map event_texts pre))) lst =
      Inr (Break, AList.update ''status'' (JStr ''complete'')
        (assign_content initial_response (concat (map event_texts (pre @ [lst])))))"
    using assms(4,5) by (simp add: process_event_wf assign_content_append)
  have "events_loop (response_end response) initial_response (pre @ [lst]) =
      (Inr (AList.update ''status'' (JStr ''complete'')
         (assign_content initial_response (concat (map event_texts (pre @ [lst]))))),
       map ReadEvent pre @ [ReadEvent lst])"
    using events_loop_quiet [OF assms(3), of "response_end response" initial_response "[lst]"] step by simp
  then show ?thesis
    using assms(1,2) by (simp add: send_streaming_request_def Let_def assign_initial)
qed

text \<open>The first scenario of the specification, with an event of two text parts in front.\<close>

theorem final_event_completes_with_last_text_witness:
  "status_code (ok_stream [ev_two_parts, ev_partial, ev_select]) = 200 \<and>
   wf_event ev_two_parts \<and> \<not> final_event ev_two_parts \<and> error_field ev_two_parts = None \<and>
   wf_event ev_partial \<and> \<not> final_event ev_partial \<and> error_field ev_partial = None \<and>
   wf_event ev_select \<and> final_event ev_select \<and> error_field ev_select = None \<and>
   fst (send_streaming_request demo_client ''t1'' ''q''
          (ok_stream [ev_two_parts, ev_partial, ev_select])) =
     Inr (JObj [(''status'', JStr ''complete''), (''content'', JStr ''SELECT 1'')])"
proof -
  have ok: "status_code (ok_stream [ev_two_parts, ev_partial, ev_select]) = 200"
    by (simp add: ok_stream_def)
  have evs: "response_events (ok_stream [ev_two_parts, ev_partial, ev_select]) =
      [ev_two_parts, ev_partial] @ [ev_select]"
    by (simp add: ok_stream_def)
  have pre: "\<forall>e\<in>set [ev_two_parts, ev_partial].
      wf_event e \<and> \<not> final_event e \<and> error_field e = None"
    by (simp add: sample_defs)
  have lst: "wf_event ev_select" "final_event ev_select" "error_field ev_select = None"
    by (simp_all add: sample_defs)
  have tx: "concat (map event_texts ([ev_two_parts, ev_partial] @ [ev_select])) =
      [JStr ''one'', JStr ''two'', JStr ''partial'', JStr ''SELECT 1'']"
    by (simp add: sample_defs)
  show ?thesis
    using ok pre lst tx
      final_event_completes_with_last_text [OF ok evs pre lst, of demo_client "''t1''" "''q''"]
    by simp
qed

text \<open>
  C4 as stated fails: in this sequence the last event has \<open>final\<close> true and no event carries
  an \<open>error\<close> field; the last text part of the whole sequence is \<open>SELECT 1\<close>, but the loop
  ends on the first event, which has \<open>final\<close> true too, and \<open>content\<close> is \<open>draft\<close>.
\<close>

theorem last_text_of_sequence_counterexample:
  "final_event (last [ev_draft, ev_select]) \<and>
   error_field ev_draft = None \<and> error_field ev_select = None \<and>
   last (concat (map event_texts [ev_draft, ev_select])) = JStr ''SELECT 1'' \<and>
   fst (send_streaming_request demo_client ''t1'' ''q'' (ok_stream [ev_draft, ev_select])) =
     Inr (JObj [(''status'', JStr ''complete''), (''content'', JStr ''draft'')])"
  by (simp add: sample_defs run_defs)

text \<open>
  C5, as the code has it. For every sequence of events with, at position \<open>k\<close>, a well-formed
  event that carries an \<open>error\<close> field and whose result, if it has one, is not final, and
  before it only well-formed events without \<open>error\<close> and without \<open>final\<close>: the request returns
  status \<open>error\<close> with the error payload attached, and the client has read the events up to
  position \<open>k\<close> and none after it. For the single event of the second scenario \<open>content\<close> is
  still the initial empty string.
\<close>

theorem error_event_ends_the_stream:
  assumes "status_code response = 200"
    and "response_events response = pre @ e # post"
    and "\<forall>x\<in>set pre. wf_event x \<and> \<not> final_event x \<and> error_field x = None"
    and "wf_event e" and "error_field e = Some err" and "\<not> final_event e"
  shows "send_streaming_request c task_id message response =
      (Inr (JObj [(''status'', JStr ''error''),
                  (''content'', last (JStr [] # concat (map event_texts (pre @ [e])))),
                  (''error'', err)]),
       Post (server_url c) (payload ''tasks/sendSubscribe'' c task_id message)
         # map ReadEvent (pre @ [e]))
    \<and> fst (send_streaming_request c task_id message
              (response\<lparr>response_events := [ev_boom]\<rparr>)) =
        Inr (JObj [(''status'', JStr ''error''), (''content'', JStr []), (''error'', boom)])"
proof -
  have step: "process_event (assign_content initial_response (concat (map event_texts pre))) e =
      Inr (Break, AList.update ''error'' err (AList.update ''status'' (JStr ''error'')
        (assign_content initial_response (concat (map event_texts (pre @ [e]))))))"
    using assms(4,5,6) by (simp add: process_event_wf assign_content_append)
  have "events_loop (response_end response) initial_response (pre @ e # post) =
      (Inr (AList.update ''error'' err (AList.update ''status'' (JStr ''error'')
         (assign_content initial_response (concat (map event_texts (pre @ [e])))))),
       map ReadEvent pre @ [ReadEvent e])"
    using events_loop_quiet [OF assms(3), of "response_end response" initial_response "e # post"] step by simp
  then have general: "send_streaming_request c task_id message response =
      (Inr (JObj [(''status'', JStr ''error''),
                  (''content'', last (JStr [] # concat (map event_texts (pre @ [e])))),
                  (''error'', err)]),
       Post (server_url c) (payload ''tasks/sendSubscribe'' c task_id message)
         # map ReadEvent (pre @ [e]))"
    using assms(1,2) by (simp add: send_streaming_request_def Let_def assign_initial)
  have scenario: "fst (send_streaming_request c task_id message
              (response\<lparr>response_events := [ev_boom]\<rparr>)) =
        Inr (JObj [(''status'', JStr ''error''), (''content'', JStr []), (''error'', boom)])"
    using assms(1) by (simp add: run_defs ev_boom_def Let_def)
  from general scenario show ?thesis by simp
qed

text \<open>An error after two events, with one more event behind it that is never read.\<close>

theorem error_event_ends_the_stream_witness:
  "status_code (ok_stream [ev_two_parts, ev_partial, ev_boom, ev_select]) = 200 \<and>
   wf_event ev_two_parts \<and> \<not> final_event ev_two_parts \<and> error_field ev_two_parts = None \<and>
   wf_event ev_partial \<and> \<not> final_event ev_partial \<and> error_field ev_partial = None \<and>
   wf_event ev_boom \<and> error_field ev_boom = Some boom \<and> \<not> final_event ev_boom \<and>
   send_streaming_request demo_client ''t1'' ''q''
       (ok_stream [ev_two_parts, ev_partial, ev_boom, ev_select]) =
     (Inr (JObj [(''status'', JStr ''error''), (''content'', JStr ''partial''),
                 (''error'', boom)]),
      [Post ''http://localhost:10002/'' (payload ''tasks/sendSubscribe'' demo_client ''t1'' ''q''),
       ReadEvent ev_two_parts, ReadEvent ev_partial, ReadEvent ev_boom])"
proof -
  have ok: "status_code (ok_stream [ev_two_parts, ev_partial, ev_boom, ev_select]) = 200"
    by (simp add: ok_stream_def)
  have evs: "response_events (ok_stream [ev_two_parts, ev_partial, ev_boom, ev_select]) =
      [ev_two_parts, ev_partial] @ ev_boom # [ev_select]"
    by (simp add: ok_stream_def)
  have pre: "\<forall>x\<in>set [ev_two_parts, ev_partial].
      wf_event x \<and> \<not> final_event x \<and> error_field x = None"
    by (simp add: sample_defs)
  have e: "wf_event ev_boom" "error_field ev_boom = Some boom" "\<not> final_event ev_boom"
    by (simp_all add: ev_boom_def)
  have tx: "concat (map event_texts ([ev_two_parts, ev_partial] @ [ev_boom])) =
      [JStr ''one'', JStr ''two'', JStr ''partial'']"
    by (simp add: sample_defs)
  have url: "server_url demo_client = ''http://localhost:10002/''"
    by (simp add: demo_client_def)
  show ?thesis
    using ok pre e tx url
      error_event_ends_the_stream [OF ok evs pre e, of demo_client "''t1''" "''q''"]
    by simp
qed

text \<open>
  C5 as stated fails: this one-event sequence has an event with an \<open>error\<close> field at position
  0 and no event before it, yet the request returns status \<open>complete\<close> with no error
  attached, because the event's result has \<open>final\<close> true.
\<close>

theorem error_at_position_counterexample:
  "error_field ev_done_error = Some boom \<and>
   fst (send_streaming_request demo_client ''t1'' ''q'' (ok_stream [ev_done_error])) =
     Inr (JObj [(''status'', JStr ''complete''), (''content'', JStr [])])"
  by (simp add: sample_defs run_defs)

text \<open>
  C6, as the code has it. For every sequence of well-formed events in which no event has
  \<open>result.final\<close> true and no event carries an \<open>error\<close> field, the request reads the whole
  stream; when the server then closes the stream, the request returns, without raising, an
  outcome with status \<open>incomplete\<close> whose \<open>content\<close> is the last text part seen; when the
  stream breaks off instead and the event iterator raises, the request raises that
  exception.
\<close>

theorem stream_end_without_terminal_is_incomplete:
  assumes "status_code response = 200"
    and "\<forall>e\<in>set (response_events response).
           wf_event e \<and> \<not> final_event e \<and> error_field e = None"
  shows "send_streaming_request c task_id message response =
      ((case response_end response of
          StreamClosed \<Rightarrow>
            Inr (JObj [(''status'', JStr ''incomplete''),
                       (''content'',
                          last (JStr [] # concat (map event_texts (response_events response))))])
        | StreamRaises err \<Rightarrow> Inl err),
       Post (server_url c) (payload ''tasks/sendSubscribe'' c task_id message)
         # map ReadEvent (response_events response))"
proof -
  have "events_loop (response_end response) initial_response (response_events response) =
      ((case response_end response of
          StreamClosed \<Rightarrow>
            Inr (assign_content initial_response
                   (concat (map event_texts (response_events response))))
        | StreamRaises err \<Rightarrow> Inl err),
       map ReadEvent (response_events response))"
    using events_loop_quiet [OF assms(2), of "response_end response" initial_response "[]"]
    by (cases "response_end response") simp_all
  then show ?thesis
    using assms(1)
    by (cases "response_end response")
       (simp_all add: send_streaming_request_def Let_def assign_initial)
qed

text \<open>A stream of three events that the server closes, and the same stream breaking off.\<close>

theorem stream_end_without_terminal_is_incomplete_witness:
  "status_code (ok_stream [ev_partial, KeepAlive, ev_two_parts]) = 200 \<and>
   wf_event ev_partial \<and> \<not> final_event ev_partial \<and> error_field ev_partial = None \<and>
   wf_event KeepAlive \<and> \<not> final_event KeepAlive \<and> error_field KeepAlive = None \<and>
   wf_event ev_two_parts \<and> \<not> final_event ev_two_parts \<and> error_field ev_two_parts = None \<and>
   fst (send_streaming_request demo_client ''t1'' ''q''
          (ok_stream [ev_partial, KeepAlive, ev_two_parts])) =
     Inr (JObj [(''status'', JStr ''incomplete''), (''content'', JStr ''two'')]) \<and>
   fst (send_streaming_request demo_client ''t1'' ''q''
          (dropped_stream [ev_partial, KeepAlive, ev_two_parts])) =
     Inl ChunkedEncodingError"
proof -
  have ok: "status_code (ok_stream [ev_partial, KeepAlive, ev_two_parts]) = 200"
    by (simp add: ok_stream_def)
  have ok': "status_code (dropped_stream [ev_partial, KeepAlive, ev_two_parts]) = 200"
    by (simp add: dropped_stream_def)
  have each: "wf_event ev_partial" "\<not> final_event ev_partial" "error_field ev_partial = None"
      "wf_event ev_two_parts" "\<not> final_event ev_two_parts" "error_field ev_two_parts = None"
    by (simp_all add: sample_defs)
  have quiet: "\<forall>e\<in>set (response_events (ok_stream [ev_partial, KeepAlive, ev_two_parts])).
      wf_event e \<and> \<not> final_event e \<and> error_field e = None"
    using each by (simp add: ok_stream_def)
  have quiet': "\<forall>e\<in>set (response_events (dropped_stream [ev_partial, KeepAlive, ev_two_parts])).
      wf_event e \<and> \<not> final_event e \<and> error_field e = None"
    using each by (simp add: dropped_stream_def)
  have tx: "concat (map event_texts
        (response_events (ok_stream [ev_partial, KeepAlive, ev_two_parts]))) =
      [JStr ''partial'', JStr ''one'', JStr ''two'']"
    by (simp add: sample_defs)
  have ends: "response_end (ok_stream [ev_partial, KeepAlive, ev_two_parts]) = StreamClosed"
      "response_end (dropped_stream [ev_partial, KeepAlive, ev_two_parts]) =
         StreamRaises ChunkedEncodingError"
    by (simp_all add: ok_stream_def dropped_stream_def)
  show ?thesis
    using ok each tx ends
      stream_end_without_terminal_is_incomplete [OF ok quiet, of demo_client "''t1''" "''q''"]
      stream_end_without_terminal_is_incomplete [OF ok' quiet', of demo_client "''t1''" "''q''"]
    by simp
qed

text \<open>
  C6 as stated fails, in two ways. Neither sequence has an event with \<open>final\<close> true or with
  an \<open>error\<close> field. On the first, whose event has a status message without \<open>parts\<close>, the
  request raises \<open>KeyError\<close> at line 86. On the second the event is well-formed and the
  stream breaks off after it: the request raises the iterator's exception, where the claim
  has an \<open>incomplete\<close> outcome and no raised error.
\<close>

theorem incomplete_not_raised_counterexample:
  "\<not> final_event ev_no_parts \<and> error_field ev_no_parts = None \<and>
   fst (send_streaming_request demo_client ''t1'' ''q'' (ok_stream [ev_no_parts])) =
     Inl (KeyError ''parts'') \<and>
   \<not> final_event ev_partial \<and> error_field ev_partial = None \<and>
   fst (send_streaming_request demo_client ''t1'' ''q'' (dropped_stream [ev_partial])) =
     Inl ChunkedEncodingError"
  by (simp add: sample_defs run_defs)

section \<open>Keep-alive events\<close>

text \<open>
  C7. Events without data are no-ops: whatever the events of the response are, putting any
  number of events without data at any positions among them does not change what the
  streaming request returns or raises.
\<close>

theorem keep_alive_events_are_noops:
  "fst (send_streaming_request c task_id message
          (response\<lparr>response_events := pad ns (response_events response)\<rparr>)) =
   fst (send_streaming_request c task_id message response)"
proof -
  have "fst (events_loop (response_end response) initial_response
              (pad ns (response_events response))) =
      fst (events_loop (response_end response) initial_response (response_events response))"
    by (rule events_loop_pad)
  then show ?thesis
    by (cases "events_loop (response_end response) initial_response
                 (pad ns (response_events response))";
        cases "events_loop (response_end response) initial_response
                 (response_events response)")
       (simp add: send_streaming_request_def http_error_def Let_def split: sum.splits)
qed

section \<open>The initial HTTP status\<close>



section \<open>The status of the outcome\<close>

text \<open>
  C9. The loop starts with status \<open>incomplete\<close>. Whenever it returns an outcome for a sequence
  of events, the status is \<open>incomplete\<close>, \<open>complete\<close> or \<open>error\<close>; and once it is \<open>complete\<close>
  or \<open>error\<close>, events that follow are not processed: with any events appended, and however
  the stream ends after them, the loop returns the same outcome and has read the same
  events.
\<close>

theorem status_only_moves_to_terminal:
  "status_of initial_response = Some (JStr ''incomplete'') \<and>
   (events_loop ending initial_response evs = (Inr d, ops) \<longrightarrow>
      status_of d \<in> {Some (JStr ''incomplete''), Some (JStr ''complete''), Some (JStr ''error'')}
      \<and> (status_of d \<noteq> Some (JStr ''incomplete'') \<longrightarrow>
            events_loop ending' initial_response (evs @ later) = (Inr d, ops)))"
proof -
  have init: "status_of initial_response = Some (JStr ''incomplete'')"
    by (simp add: status_of_def initial_response_def)
  have "status_of d \<in> {Some (JStr ''incomplete''), Some (JStr ''complete''), Some (JStr ''error'')}
      \<and> (status_of d \<noteq> Some (JStr ''incomplete'') \<longrightarrow>
            events_loop ending' initial_response (evs @ later) = (Inr d, ops))"
    if run: "events_loop ending initial_response evs = (Inr d, ops)"
  proof
    show "status_of d \<in> {Some (JStr ''incomplete''), Some (JStr ''complete''),
        Some (JStr ''error'')}"
      using events_loop_status [OF run] init by auto
    show "status_of d \<noteq> Some (JStr ''incomplete'') \<longrightarrow>
        events_loop ending' initial_response (evs @ later) = (Inr d, ops)"
      using events_loop_terminal_stops [OF run, of ending' later] init by simp
  qed
  with init show ?thesis by blast
qed

text \<open>
  After the two events of the first scenario, an error event that follows changes nothing,
  nor does a stream that breaks off after it.
\<close>

theorem status_only_moves_to_terminal_witness:
  "events_loop StreamClosed initial_response [ev_partial, ev_select] =
     (Inr [(''status'', JStr ''complete''), (''content'', JStr ''SELECT 1'')],
      [ReadEvent ev_partial, ReadEvent ev_select]) \<and>
   status_of [(''status'', JStr ''complete''), (''content'', JStr ''SELECT 1'')]
     \<noteq> Some (JStr ''incomplete'') \<and>
   events_loop (StreamRaises ChunkedEncodingError) initial_response
       ([ev_partial, ev_select] @ [ev_boom]) =
     (Inr [(''status'', JStr ''complete''), (''content'', JStr ''SELECT 1'')],
      [ReadEvent ev_partial, ReadEvent ev_select])"
proof -
  have run: "events_loop StreamClosed initial_response [ev_partial, ev_select] =
     (Inr [(''status'', JStr ''complete''), (''content'', JStr ''SELECT 1'')],
      [ReadEvent ev_partial, ReadEvent ev_select])"
    by (simp add: sample_defs run_defs)
  have fin: "status_of [(''status'', JStr ''complete''), (''content'', JStr ''SELECT 1'')]
     \<noteq> Some (JStr ''incomplete'')"
    by (simp add: status_of_def)
  show ?thesis
    using run fin
      status_only_moves_to_terminal [of StreamClosed "[ev_partial, ev_select]"
        "[(''status'', JStr ''complete''), (''content'', JStr ''SELECT 1'')]"
        "[ReadEvent ev_partial, ReadEvent ev_select]"
        "StreamRaises ChunkedEncodingError" "[ev_boom]"]
    by blast
qed

section \<open>The chat shell\<close>

text \<open>
  C10. The shell treats the dictionary it gets from the client as an error exactly when it
  carries an \<open>error\<close> field: then it shows the error and leaves the history as it is. For
  every outcome without an \<open>error\<close> field, whatever the status under which its \<open>content\<close>
  comes, \<open>incomplete\<close> as well as \<open>complete\<close>, the shell writes the content and appends it
  to the history as an assistant message.
\<close>

theorem shell_error_iff_error_field:
  "(map_of kv ''error'' = Some err \<longrightarrow>
      show_response (Inr (JObj kv)) sh = sh\<lparr>message_placeholder := ErrorBox err\<rparr>) \<and>
   (map_of kv ''error'' = None \<and> map_of kv ''content'' = Some v \<longrightarrow>
      show_response (Inr (JObj kv)) sh =
        sh\<lparr>message_placeholder := Written v,
           messages := messages sh @ [\<lparr>role = ''assistant'', content = v\<rparr>]\<rparr>)"
  by (simp add: show_response_def in_keys_map_of)

text \<open>
  An outcome with status \<open>incomplete\<close>, from a stream that closed early, and the dictionary
  the client returns for a status code other than 200.
\<close>

theorem shell_error_iff_error_field_witness:
  "show_response
     (Inr (JObj [(''status'', JStr ''incomplete''), (''content'', JStr ''partial'')]))
     \<lparr>messages = [\<lparr>role = ''user'', content = JStr ''q''\<rparr>], message_placeholder = Thinking\<rparr> =
   \<lparr>messages = [\<lparr>role = ''user'', content = JStr ''q''\<rparr>,
                \<lparr>role = ''assistant'', content = JStr ''partial''\<rparr>],
    message_placeholder = Written (JStr ''partial'')\<rparr> \<and>
   show_response (Inr (JObj [(''error'', JStr ''Error: 500 - down'')]))
     \<lparr>messages = [\<lparr>role = ''user'', content = JStr ''q''\<rparr>], message_placeholder = Thinking\<rparr> =
   \<lparr>messages = [\<lparr>role = ''user'', content = JStr ''q''\<rparr>],
    message_placeholder = ErrorBox (JStr ''Error: 500 - down'')\<rparr>"
proof -
  have c: "map_of [(''status'', JStr ''incomplete''), (''content'', JStr ''partial'')] ''content''
     = Some (JStr ''partial'')"
    by simp
  have n: "map_of [(''status'', JStr ''incomplete''), (''content'', JStr ''partial'')] ''error''
     = None"
    by simp
  have e: "map_of [(''error'', JStr ''Error: 500 - down'')] ''error''
     = Some (JStr ''Error: 500 - down'')"
    by simp
  show ?thesis
    using c n e
      shell_error_iff_error_field
        [of "[(''status'', JStr ''incomplete''), (''content'', JStr ''partial'')]" _
            "\<lparr>messages = [\<lparr>role = ''user'', content = JStr ''q''\<rparr>],
              message_placeholder = Thinking\<rparr>" "JStr ''partial''"]
      shell_error_iff_error_field
        [of "[(''error'', JStr ''Error: 500 - down'')]" "JStr ''Error: 500 - down''"
            "\<lparr>messages = [\<lparr>role = ''user'', content = JStr ''q''\<rparr>],
              message_placeholder = Thinking\<rparr>"]
    by simp
qed

end
